theory Spec2Isabelle
  imports Main "HOL-Library.Word"
begin

section \<open>Data model of the skipchain replication handler\<close>

text \<open>
  The handler of \<^verbatim>\<open>blockchain/skipchain/handler.go\<close> mediates between the network and
  its collaborators: the block database, the encoder, the consensus engine and the block
  factory. The collaborators are interfaces in the source, so they are parameters here.
  Byte slices are lists of bytes; \<^verbatim>\<open>int64\<close> and \<^verbatim>\<open>uint64\<close> are 64-bit words, read
  signed with \<open>sint\<close> where the source does.
\<close>

type_synonym byte = "8 word"
type_synonym bytes = "byte list"
type_synonym int64 = "64 word"
type_synonym uint64 = "64 word"
type_synonym Address = string

text \<open>
  Modelled from the spec: the type \<^verbatim>\<open>Digest\<close> is declared outside the handler's file. The
  spec gives a hash as a fixed-size digest of 32 bytes, and the test double
  \<^verbatim>\<open>fake.Hash\<close> has \<^verbatim>\<open>Size() = 32\<close>. The zero value of a fixed-size byte array is all
  zeros.
\<close>

definition Digest_size :: nat where
  "Digest_size = 32"

definition zero_Digest :: bytes where
  "zero_Digest = replicate Digest_size 0"

text \<open>
  Modelled from the spec: \<^verbatim>\<open>SkipBlock\<close> is declared outside the handler's file. The handler
  reads its index (\<^verbatim>\<open>GetIndex\<close>, unsigned) and its hash (\<^verbatim>\<open>GetHash\<close>, the field
  \<^verbatim>\<open>hash\<close>); the spec adds the previous hash and an opaque payload.
\<close>

record SkipBlock =
  Index :: uint64
  hash :: bytes
  BackLink :: bytes
  Payload :: bytes

text \<open>The value of \<^verbatim>\<open>var block SkipBlock\<close>: every field zero.\<close>

definition zero_SkipBlock :: SkipBlock where
  "zero_SkipBlock = \<lparr>Index = 0, hash = zero_Digest, BackLink = zero_Digest, Payload = []\<rparr>"

record ForwardLink =
  link_from :: bytes
  link_to :: bytes

type_synonym Chain = "ForwardLink list"

type_synonym BlockProto = bytes
type_synonym Any = bytes

text \<open>\<^verbatim>\<open>BlockResponse\<close>: the packed block and the packed chain, \<open>None\<close> for a nil chain.\<close>

record BlockResponse =
  Block :: BlockProto
  Chain :: "Any option"

text \<open>
  The values an interface of type \<^verbatim>\<open>proto.Message\<close> holds, as far as the handler's type
  switches tell them apart; \<open>NilMessage\<close> is the nil interface.
\<close>

datatype message =
    PropagateGenesis bytes
  | BlockRequest bytes
  | BlockProtoMsg BlockProto
  | BlockResponseMsg BlockResponse
  | OtherMessage string
  | NilMessage

fun is_PropagateGenesis :: "message \<Rightarrow> bool" where
  "is_PropagateGenesis (PropagateGenesis g) = True"
| "is_PropagateGenesis m = False"

fun is_BlockRequest :: "message \<Rightarrow> bool" where
  "is_BlockRequest (BlockRequest t) = True"
| "is_BlockRequest m = False"

record Request =
  req_Address :: Address
  req_Message :: message

text \<open>
  The errors the handler returns, one constructor for each \<^verbatim>\<open>xerrors.Errorf\<close> of the
  source, carrying the text of the wrapped error. \<open>Panic\<close> is the failed type assertion
  \<^verbatim>\<open>blockpb.(*BlockProto)\<close>.
\<close>

datatype error =
    CouldntDecodeBlock string
  | CouldntStoreGenesis string
  | UnknownMessageType
  | CouldntReceive string
  | InvalidMessageType
  | CouldntReadBlock int64 string
  | CouldntPackBlock string
  | CouldntGetChain uint64 string
  | CouldntPackChain string
  | CouldntSendBlock string
  | Panic string

text \<open>
  The effects of a call, in the order they happen: the receive on the stream, a read of
  the database at an index, a send (with the error the channel delivered, if any), a
  decoding of block bytes and a call of the insertion with a block, whether it succeeds
  or not.
\<close>

datatype event =
    EvRecv
  | EvRead int64
  | EvSend BlockResponse Address "string option"
  | EvDecode bytes
  | EvInsert SkipBlock

text \<open>The responses handed to the sender so far, and those whose send succeeded.\<close>

fun send_attempts :: "event list \<Rightarrow> BlockResponse list" where
  "send_attempts [] = []"
| "send_attempts (EvSend r a e # evs) = r # send_attempts evs"
| "send_attempts (ev # evs) = send_attempts evs"

fun sent :: "event list \<Rightarrow> BlockResponse list" where
  "sent [] = []"
| "sent (EvSend r a None # evs) = r # sent evs"
| "sent (ev # evs) = sent evs"

fun reads :: "event list \<Rightarrow> int64 list" where
  "reads [] = []"
| "reads (EvRead i # evs) = i # reads evs"
| "reads (ev # evs) = reads evs"

text \<open>
  The struct \<^verbatim>\<open>operations\<close> embedded in the handler: the database read, the encoder, the
  consensus engine, the block factory and the block insertion, over a database state
  \<open>'db\<close>. A failing call returns the text of its error on the left.
\<close>

record 'db operations =
  db_Read :: "'db \<Rightarrow> int64 \<Rightarrow> string + SkipBlock"
  encoder_Pack :: "SkipBlock \<Rightarrow> string + message"
  encoder_PackAny :: "Chain \<Rightarrow> string + Any"
  consensus_GetChain :: "bytes \<Rightarrow> string + Chain"
  blockFactory_decodeBlock :: "bytes \<Rightarrow> string + SkipBlock"
  insertBlock :: "'db \<Rightarrow> SkipBlock \<Rightarrow> string option \<times> 'db"

text \<open>
  The context handed to \<^verbatim>\<open>Recv\<close>. The receiver answers a call with the sender's address,
  the message and an error; the handler calls it once. The sender answers each
  \<^verbatim>\<open>Send\<close> with the error read from the returned channel; what it answers may depend on the
  responses it was handed before.
\<close>

datatype Context = Background | WithCancel bool

type_synonym Receiver = "Context \<Rightarrow> Address \<times> message \<times> string option"
type_synonym Sender = "BlockResponse list \<Rightarrow> BlockResponse \<Rightarrow> Address \<Rightarrow> string option"

section \<open>The handler\<close>

text \<open>
  \<^verbatim>\<open>Process\<close> (lines 29 to 46): the result is the response and the error, the database
  after the call and the effects of the call.
\<close>

definition Process ::
  "'db operations \<Rightarrow> 'db \<Rightarrow> Request \<Rightarrow> (message option \<times> error option) \<times> 'db \<times> event list" where
  "Process h db req =
     (case req_Message req of
        PropagateGenesis data \<Rightarrow>
          (case blockFactory_decodeBlock h data of
             Inl err \<Rightarrow> ((None, Some (CouldntDecodeBlock err)), db, [EvDecode data])
           | Inr genesis \<Rightarrow>
               (case insertBlock h db genesis of
                  (Some err, db') \<Rightarrow>
                    ((None, Some (CouldntStoreGenesis err)), db', [EvDecode data, EvInsert genesis])
                | (None, db') \<Rightarrow>
                    ((None, None), db', [EvDecode data, EvInsert genesis])))
      | _ \<Rightarrow> ((None, Some UnknownMessageType), db, []))"

text \<open>
  The body of the loop of \<^verbatim>\<open>Stream\<close> from the packing of the block to the finished
  response (lines 68 to 93). The chain is asked for only when the index is positive.
\<close>

definition Stream_response :: "'db operations \<Rightarrow> SkipBlock \<Rightarrow> error + BlockResponse" where
  "Stream_response h block =
     (case encoder_Pack h block of
        Inl err \<Rightarrow> Inl (CouldntPackBlock err)
      | Inr blockpb \<Rightarrow>
          (case blockpb of
             BlockProtoMsg bp \<Rightarrow>
               (if 0 < Index block then
                  (case consensus_GetChain h (hash block) of
                     Inl err \<Rightarrow> Inl (CouldntGetChain (Index block) err)
                   | Inr chain \<Rightarrow>
                       (case encoder_PackAny h chain of
                          Inl err \<Rightarrow> Inl (CouldntPackChain err)
                        | Inr chainpb \<Rightarrow> Inr \<lparr>Block = bp, Chain = Some chainpb\<rparr>))
                else Inr \<lparr>Block = bp, Chain = None\<rparr>)
           | _ \<Rightarrow> Inl (Panic ''interface conversion: not *BlockProto'')))"

text \<open>
  The loop of \<^verbatim>\<open>Stream\<close> (lines 62 to 99). The guard compares the hash of the block read
  last, at first the zero block, with the target. The counter is an \<^verbatim>\<open>int64\<close> and wraps.
  Nothing bounds the loop when the database answers every index, so it is a partial
  function: \<open>None\<close> is a run that never returns.
\<close>

partial_function (option) Stream_loop ::
  "'db operations \<Rightarrow> 'db \<Rightarrow> Sender \<Rightarrow> Address \<Rightarrow> bytes \<Rightarrow> int64 \<Rightarrow> SkipBlock \<Rightarrow> event list
     \<Rightarrow> (error option \<times> event list) option" where
  "Stream_loop h db out addr to i block evs =
     (if hash block = to then Some (None, evs)
      else
        (case db_Read h db i of
           Inl err \<Rightarrow> Some (Some (CouldntReadBlock i err), evs @ [EvRead i])
         | Inr block' \<Rightarrow>
             (case Stream_response h block' of
                Inl err \<Rightarrow> Some (Some err, evs @ [EvRead i])
              | Inr resp \<Rightarrow>
                  (case out (send_attempts evs) resp addr of
                     Some err \<Rightarrow>
                       Some (Some (CouldntSendBlock err),
                             evs @ [EvRead i, EvSend resp addr (Some err)])
                   | None \<Rightarrow>
                       Stream_loop h db out addr to (i + 1) block'
                         (evs @ [EvRead i, EvSend resp addr None])))))"

text \<open>
  \<^verbatim>\<open>Stream\<close> (lines 50 to 102): one receive with the background context, the check of the
  message type, then the loop from index 0 with the zero block.
\<close>

definition Stream ::
  "'db operations \<Rightarrow> 'db \<Rightarrow> Sender \<Rightarrow> Receiver \<Rightarrow> (error option \<times> event list) option" where
  "Stream h db out inp =
     (case inp Background of
        (addr, msg, Some err) \<Rightarrow> Some (Some (CouldntReceive err), [EvRecv])
      | (addr, msg, None) \<Rightarrow>
          (case msg of
             BlockRequest to \<Rightarrow> Stream_loop h db out addr to 0 zero_SkipBlock [EvRecv]
           | _ \<Rightarrow> Some (Some InvalidMessageType, [EvRecv])))"

section \<open>The block store\<close>

text \<open>
  Modelled from the spec: the database behind \<^verbatim>\<open>h.db\<close> is declared outside the handler's
  file. The spec describes an ordered append-only log. \<^verbatim>\<open>Read\<close> returns the block at the
  position and fails with \<^verbatim>\<open>NotFoundError\<close> when there is none, negative and future
  indices included.
\<close>

definition store_Read :: "SkipBlock list \<Rightarrow> int64 \<Rightarrow> string + SkipBlock" where
  "store_Read bs i =
     (if 0 \<le> sint i \<and> nat (sint i) < length bs then Inr (bs ! nat (sint i))
      else Inl ''NotFoundError'')"

text \<open>
  Modelled from the spec: the previous hash of a genesis block is absent or zero.
\<close>

definition empty_hash :: "bytes \<Rightarrow> bool" where
  "empty_hash x = (x = [] \<or> x = zero_Digest)"

text \<open>
  Modelled from the spec: \<^verbatim>\<open>Insert\<close> of the block store (section 4.1) is declared outside
  the handler's file. It appends; it fails with \<^verbatim>\<open>OutOfOrderError\<close> when the index of the
  block is not the current length, with \<^verbatim>\<open>DuplicateError\<close> when a block with the same
  hash is stored, and with \<^verbatim>\<open>LinkageError\<close> when the previous hash is not the hash of
  the block before (or is not empty at index 0). The spec gives no order for the
  failures; the checks follow the order in which it lists them, and nothing below
  depends on which failure is reported when several apply. A failed insertion leaves
  the log as it was.
\<close>

definition store_Insert :: "SkipBlock list \<Rightarrow> SkipBlock \<Rightarrow> string option \<times> SkipBlock list" where
  "store_Insert bs b =
     (if unat (Index b) \<noteq> length bs then (Some ''OutOfOrderError'', bs)
      else if hash b \<in> set (map hash bs) then (Some ''DuplicateError'', bs)
      else if (if bs = [] then \<not> empty_hash (BackLink b) else BackLink b \<noteq> hash (last bs))
        then (Some ''LinkageError'', bs)
      else (None, bs @ [b]))"

text \<open>
  Modelled from the spec: the insertion behind \<^verbatim>\<open>h.insertBlock\<close> is declared outside the
  handler's file. For the genesis propagation the spec (section 4.4, step 3) has: insert
  the genesis block into the store; when the store already has a block at index 0 with a
  different hash, fail with \<^verbatim>\<open>ConflictError\<close>; when it already has the identical
  genesis block, treat the insertion as a success. A block is identified by its hash.
\<close>

definition insertBlock_spec ::
  "SkipBlock list \<Rightarrow> SkipBlock \<Rightarrow> string option \<times> SkipBlock list" where
  "insertBlock_spec bs genesis =
     (case bs of
        [] \<Rightarrow> store_Insert bs genesis
      | b0 # rest \<Rightarrow>
          (if hash b0 = hash genesis then (None, bs) else (Some ''ConflictError'', bs)))"

text \<open>
  Modelled from the spec: the invariant of the store. The block at position \<open>j\<close> has index
  \<open>j\<close>, no two blocks share a hash, and no stored hash is the zero value (the spec asks
  the last of the indices above 0; here it is asked of the genesis block as well).
\<close>

definition store_ok :: "SkipBlock list \<Rightarrow> bool" where
  "store_ok bs =
     (map Index bs = map of_nat [0..<length bs] \<and> distinct (map hash bs)
      \<and> zero_Digest \<notin> set (map hash bs))"

text \<open>The effects of one round of the loop that sends the response \<open>R m\<close> for index \<open>m\<close>.\<close>

definition round_events :: "(nat \<Rightarrow> BlockResponse) \<Rightarrow> Address \<Rightarrow> nat \<Rightarrow> event list" where
  "round_events R addr m = [EvRead (of_nat m), EvSend (R m) addr None]"

text \<open>
  A result of the loop started with the effects \<open>evs\<close> extends them, and a failed send
  among the new effects is the last of them, happens once, and its error is the result.
\<close>

definition failed_send_last :: "event list \<Rightarrow> error option \<times> event list \<Rightarrow> bool" where
  "failed_send_last evs y =
     (\<exists>new. snd y = evs @ new \<and>
       (\<forall>r a e. EvSend r a (Some e) \<in> set new \<longrightarrow>
          fst y = Some (CouldntSendBlock e) \<and> new \<noteq> [] \<and> last new = EvSend r a (Some e)
          \<and> EvSend r a (Some e) \<notin> set (butlast new)))"

section \<open>A store of six blocks and its collaborators\<close>

text \<open>
  Concrete inputs on which the properties below are evaluated: six linked blocks with
  32-byte hashes, an encoder that packs a block as its hash, a consensus engine that
  answers one link to the hash asked for, a factory that decodes one byte into the block
  of that index, a sender that always succeeds and one that always fails with
  \<^verbatim>\<open>fake error\<close>, as \<^verbatim>\<open>fake.NewBadSender\<close> does.
\<close>

definition example_block :: "nat \<Rightarrow> SkipBlock" where
  "example_block n =
     \<lparr>Index = of_nat n, hash = of_nat (Suc n) # replicate 31 0,
      BackLink = of_nat n # replicate 31 0, Payload = []\<rparr>"

definition example_store :: "SkipBlock list" where
  "example_store = map example_block [0, 1, 2, 3, 4, 5]"

definition example_decode :: "bytes \<Rightarrow> string + SkipBlock" where
  "example_decode d = (case d of [n] \<Rightarrow> Inr (example_block (unat n)) | _ \<Rightarrow> Inl ''malformed'')"

definition example_ops :: "SkipBlock list operations" where
  "example_ops =
     \<lparr>db_Read = store_Read,
      encoder_Pack = (\<lambda>b. Inr (BlockProtoMsg (hash b))),
      encoder_PackAny = (\<lambda>c. Inr (concat (map link_to c))),
      consensus_GetChain = (\<lambda>x. Inr [\<lparr>link_from = [], link_to = x\<rparr>]),
      blockFactory_decodeBlock = example_decode,
      insertBlock = insertBlock_spec\<rparr>"

definition good_sender :: Sender where
  "good_sender hist r a = None"

definition bad_sender :: Sender where
  "bad_sender hist r a = Some ''fake error''"

definition example_receiver :: "message \<Rightarrow> Receiver" where
  "example_receiver m ctx = (''peer'', m, None)"


text \<open>
  A genesis block as the test double \<^verbatim>\<open>fake.Hash\<close> digests it: \<^verbatim>\<open>Sum\<close> returns 32 zero
  bytes.
\<close>

definition fake_genesis :: SkipBlock where
  "fake_genesis = \<lparr>Index = 0, hash = zero_Digest, BackLink = zero_Digest, Payload = [103]\<rparr>"

definition example_request :: Request where
  "example_request = \<lparr>req_Address = ''proposer'', req_Message = PropagateGenesis [0]\<rparr>"

text \<open>A sender whose third send fails.\<close>

definition flaky_sender :: Sender where
  "flaky_sender hist r a = (if length hist = 2 then Some ''broken pipe'' else None)"

text \<open>The response the example encoder and consensus engine give for the block of index \<open>n\<close>.\<close>

definition example_response :: "nat \<Rightarrow> BlockResponse" where
  "example_response n =
     \<lparr>Block = hash (example_block n),
      Chain = (if n = 0 then None else Some (hash (example_block n)))\<rparr>"

section \<open>Properties\<close>

subsection \<open>Words and single rounds of the loop\<close>

lemma sint_of_nat64: "j < 2 ^ 63 \<Longrightarrow> sint (of_nat j :: 64 word) = int j"
  by (simp add: signed_of_nat signed_take_bit_int_eq_self)

lemma of_nat64_pos: "0 < j \<Longrightarrow> j < 2 ^ 64 \<Longrightarrow> 0 < (of_nat j :: 64 word)"
  using of_nat_neq_0 [where 'a = 64, of j] by (simp add: word_neq_0_conv)

lemma Stream_loop_target_reached:
  "hash block = to \<Longrightarrow> Stream_loop h db out addr to i block evs = Some (None, evs)"
  by (subst Stream_loop.simps) simp

lemma hash_zero_SkipBlock: "hash zero_SkipBlock = zero_Digest"
  by (simp add: zero_SkipBlock_def)

lemma Stream_zero_target:
  "inp Background = (addr, BlockRequest zero_Digest, None) \<Longrightarrow>
   Stream h db out inp = Some (None, [EvRecv])"
  by (simp add: Stream_def Stream_loop_target_reached hash_zero_SkipBlock)

lemma Stream_loop_step:
  assumes "hash block \<noteq> to" "db_Read h db i = Inr b" "Stream_response h b = Inr r"
    "out (send_attempts evs) r addr = None"
  shows "Stream_loop h db out addr to i block evs =
         Stream_loop h db out addr to (i + 1) b (evs @ [EvRead i, EvSend r addr None])"
  using assms by (subst Stream_loop.simps) simp

lemma Stream_loop_read_fails:
  assumes "hash block \<noteq> to" "db_Read h db i = Inl e"
  shows "Stream_loop h db out addr to i block evs =
         Some (Some (CouldntReadBlock i e), evs @ [EvRead i])"
  using assms by (subst Stream_loop.simps) simp

lemma Stream_loop_response_fails:
  assumes "hash block \<noteq> to" "db_Read h db i = Inr b" "Stream_response h b = Inl e"
  shows "Stream_loop h db out addr to i block evs = Some (Some e, evs @ [EvRead i])"
  using assms by (subst Stream_loop.simps) simp

lemma Stream_loop_send_fails:
  assumes "hash block \<noteq> to" "db_Read h db i = Inr b" "Stream_response h b = Inr r"
    "out (send_attempts evs) r addr = Some e"
  shows "Stream_loop h db out addr to i block evs =
         Some (Some (CouldntSendBlock e), evs @ [EvRead i, EvSend r addr (Some e)])"
  using assms by (subst Stream_loop.simps) simp

lemma Stream_loop_reaches:
  assumes rd: "\<And>m. m \<le> k \<Longrightarrow> db_Read h db (of_nat m) = Inr (B m)"
    and rs: "\<And>m. m \<le> k \<Longrightarrow> Stream_response h (B m) = Inr (R m)"
    and nm: "\<And>m. m < k \<Longrightarrow> hash (B m) \<noteq> to"
    and mt: "hash (B k) = to"
    and snd: "\<And>hist r. out hist r addr = None"
  shows "j \<le> k \<Longrightarrow> hash block \<noteq> to \<Longrightarrow>
     Stream_loop h db out addr to (of_nat j) block evs =
       Some (None, evs @ concat (map (round_events R addr) [j..<Suc k]))"
proof (induction "k - j" arbitrary: j block evs)
  case 0
  then have jk: "j = k" by simp
  have "Stream_loop h db out addr to (of_nat k) block evs =
        Stream_loop h db out addr to (of_nat k + 1) (B k) (evs @ round_events R addr k)"
    unfolding round_events_def
    using "0.prems"(2) rd [of k] rs [of k] snd by (intro Stream_loop_step) simp_all
  also have "\<dots> = Some (None, evs @ round_events R addr k)"
    using mt by (subst Stream_loop.simps) simp
  finally show ?case by (simp add: jk)
next
  case (Suc n)
  then have lt: "j < k" and n: "n = k - Suc j" by simp_all
  have "Stream_loop h db out addr to (of_nat j) block evs =
        Stream_loop h db out addr to (of_nat j + 1) (B j) (evs @ round_events R addr j)"
    unfolding round_events_def
    using Suc.prems rd [of j] rs [of j] snd by (intro Stream_loop_step) simp_all
  also have "of_nat j + (1 :: 64 word) = of_nat (Suc j)" by simp
  also have "Stream_loop h db out addr to (of_nat (Suc j)) (B j) (evs @ round_events R addr j) =
     Some (None, (evs @ round_events R addr j) @ concat (map (round_events R addr) [Suc j..<Suc k]))"
    using lt n nm [of j] by (intro Suc.hyps(1)) simp_all
  finally show ?case using lt by (simp add: upt_conv_Cons)
qed

subsection \<open>Catching up on a stored log\<close>

lemma store_Read_of_nat:
  "m < length bs \<Longrightarrow> m < 2 ^ 63 \<Longrightarrow> store_Read bs (of_nat m) = Inr (bs ! m)"
  by (simp add: store_Read_def sint_of_nat64)

lemma store_Read_end:
  "length bs < 2 ^ 63 \<Longrightarrow> store_Read bs (of_nat (length bs)) = Inl ''NotFoundError''"
  by (simp add: store_Read_def sint_of_nat64)

lemma store_ok_Index: "store_ok bs \<Longrightarrow> m < length bs \<Longrightarrow> Index (bs ! m) = of_nat m"
proof -
  assume ok: "store_ok bs" and m: "m < length bs"
  then have "map Index bs ! m = map of_nat [0..<length bs] ! m"
    by (simp add: store_ok_def)
  with m show ?thesis by simp
qed

lemma store_ok_hash_inj:
  "store_ok bs \<Longrightarrow> m < length bs \<Longrightarrow> n < length bs \<Longrightarrow> m \<noteq> n \<Longrightarrow> hash (bs ! m) \<noteq> hash (bs ! n)"
  using nth_eq_iff_index_eq [of "map hash bs" m n] by (simp add: store_ok_def)

lemma store_ok_hash_nonzero: "store_ok bs \<Longrightarrow> m < length bs \<Longrightarrow> hash (bs ! m) \<noteq> zero_Digest"
proof
  assume ok: "store_ok bs" and m: "m < length bs" and z: "hash (bs ! m) = zero_Digest"
  from m have "hash (bs ! m) \<in> set (map hash bs)" by simp
  with z have "zero_Digest \<in> set (map hash bs)" by simp
  with ok show False by (simp add: store_ok_def)
qed

lemma sent_rounds: "sent (concat (map (round_events R addr) ms)) = map R ms"
  by (induction ms) (simp_all add: round_events_def)

lemma send_attempts_rounds: "send_attempts (concat (map (round_events R addr) ms)) = map R ms"
  by (induction ms) (simp_all add: round_events_def)

lemma reads_rounds: "reads (concat (map (round_events R addr) ms)) = map of_nat ms"
  by (induction ms) (simp_all add: round_events_def)

lemma Stream_response_Inr:
  "Stream_response h b = Inr r \<Longrightarrow>
     encoder_Pack h b = Inr (BlockProtoMsg (Block r)) \<and>
     (if 0 < Index b
      then \<exists>chain c. consensus_GetChain h (hash b) = Inr chain \<and> encoder_PackAny h chain = Inr c
             \<and> Chain r = Some c
      else Chain r = None)"
  by (auto simp: Stream_response_def split: sum.splits message.splits if_splits)

lemma Stream_store_catch_up:
  assumes ok: "store_ok bs" and k: "k < length bs"
    and rd: "\<And>m. m \<le> k \<Longrightarrow> db_Read h db (of_nat m) = Inr (bs ! m)"
    and rs: "\<And>m. m \<le> k \<Longrightarrow> Stream_response h (bs ! m) = Inr (R m)"
    and snd: "\<And>hist r. out hist r addr = None"
    and rq: "inp Background = (addr, BlockRequest (hash (bs ! k)), None)"
  shows "Stream h db out inp = Some (None, EvRecv # concat (map (round_events R addr) [0..<Suc k]))"
proof -
  have z: "hash zero_SkipBlock \<noteq> hash (bs ! k)"
    using store_ok_hash_nonzero [OF ok k] by (simp add: hash_zero_SkipBlock)
  have "Stream_loop h db out addr (hash (bs ! k)) (of_nat 0) zero_SkipBlock [EvRecv] =
        Some (None, [EvRecv] @ concat (map (round_events R addr) [0..<Suc k]))"
  proof (rule Stream_loop_reaches [where B = "\<lambda>m. bs ! m"])
    fix m assume "m < k"
    then show "hash (bs ! m) \<noteq> hash (bs ! k)"
      using k by (intro store_ok_hash_inj [OF ok]) simp_all
  qed (use rd rs snd z in simp_all)
  then show ?thesis by (simp add: Stream_def rq)
qed

subsection \<open>Unknown targets and failed sends\<close>

lemma Stream_loop_unknown_target:
  assumes rd: "db_Read h = store_Read" and len: "length bs < 2 ^ 63"
    and un: "to \<notin> set (map hash bs)"
  shows "j \<le> length bs \<Longrightarrow> hash block \<noteq> to \<Longrightarrow>
     \<exists>e new. Stream_loop h bs out addr to (of_nat j) block evs = Some (Some e, evs @ new)
        \<and> length (sent new) \<le> length bs - j"
proof (induction "length bs - j" arbitrary: j block evs)
  case 0
  then have j: "j = length bs" by simp
  have "Stream_loop h bs out addr to (of_nat j) block evs =
        Some (Some (CouldntReadBlock (of_nat j) ''NotFoundError''), evs @ [EvRead (of_nat j)])"
    using "0.prems"(2) len by (intro Stream_loop_read_fails) (simp_all add: rd j store_Read_end)
  then show ?case by simp
next
  case (Suc n)
  then have lt: "j < length bs" and n: "n = length bs - Suc j" by simp_all
  have b: "db_Read h bs (of_nat j) = Inr (bs ! j)"
    using lt len by (simp add: rd store_Read_of_nat)
  have nb: "hash (bs ! j) \<noteq> to"
    using un lt nth_mem [of j "map hash bs"] by auto
  show ?case
  proof (cases "Stream_response h (bs ! j)")
    case (Inl e)
    then have "Stream_loop h bs out addr to (of_nat j) block evs = Some (Some e, evs @ [EvRead (of_nat j)])"
      using Suc.prems(2) b by (intro Stream_loop_response_fails)
    then show ?thesis by simp
  next
    case (Inr r)
    show ?thesis
    proof (cases "out (send_attempts evs) r addr")
      case (Some x)
      then have "Stream_loop h bs out addr to (of_nat j) block evs =
          Some (Some (CouldntSendBlock x), evs @ [EvRead (of_nat j), EvSend r addr (Some x)])"
        using Suc.prems(2) b Inr by (intro Stream_loop_send_fails)
      then show ?thesis by simp
    next
      case None
      then have "Stream_loop h bs out addr to (of_nat j) block evs =
          Stream_loop h bs out addr to (of_nat j + 1) (bs ! j)
            (evs @ [EvRead (of_nat j), EvSend r addr None])"
        using Suc.prems(2) b Inr by (intro Stream_loop_step)
      moreover have "of_nat j + (1 :: 64 word) = of_nat (Suc j)" by simp
      moreover obtain e new where
        "Stream_loop h bs out addr to (of_nat (Suc j)) (bs ! j)
            (evs @ [EvRead (of_nat j), EvSend r addr None]) =
         Some (Some e, (evs @ [EvRead (of_nat j), EvSend r addr None]) @ new)"
        "length (sent new) \<le> length bs - Suc j"
        using Suc.hyps(1) [of "Suc j" "bs ! j" "evs @ [EvRead (of_nat j), EvSend r addr None]"]
          n lt nb by auto
      ultimately have "Stream_loop h bs out addr to (of_nat j) block evs =
          Some (Some e, evs @ ([EvRead (of_nat j), EvSend r addr None] @ new))"
        and "length (sent ([EvRead (of_nat j), EvSend r addr None] @ new)) \<le> length bs - j"
        using lt by simp_all
      then show ?thesis by blast
    qed
  qed
qed

lemma Stream_unknown_target_fails:
  assumes "db_Read h = store_Read" and "length bs < 2 ^ 63"
    and "to \<notin> set (map hash bs)" and "to \<noteq> zero_Digest"
    and "inp Background = (addr, BlockRequest to, None)"
  shows "\<exists>e evs. Stream h bs out inp = Some (Some e, evs) \<and> length (sent evs) \<le> length bs"
proof -
  obtain e new where "Stream_loop h bs out addr to (of_nat 0) zero_SkipBlock [EvRecv] =
      Some (Some e, [EvRecv] @ new)" "length (sent new) \<le> length bs - 0"
    using Stream_loop_unknown_target [OF assms(1-3), of 0 zero_SkipBlock out addr "[EvRecv]"] assms(4)
    by (auto simp: hash_zero_SkipBlock)
  then show ?thesis using assms(5) by (simp add: Stream_def)
qed

lemma failed_send_last_refl: "failed_send_last evs (res, evs)"
  by (simp add: failed_send_last_def)

lemma failed_send_last_read: "failed_send_last evs (res, evs @ [EvRead i])"
  by (simp add: failed_send_last_def)

lemma failed_send_last_fail:
  "failed_send_last evs (Some (CouldntSendBlock x), evs @ [EvRead i, EvSend r addr (Some x)])"
  by (simp add: failed_send_last_def)

lemma failed_send_last_round:
  assumes "failed_send_last (evs @ [EvRead i, EvSend r addr None]) y"
  shows "failed_send_last evs y"
proof -
  from assms obtain new where
    new: "snd y = (evs @ [EvRead i, EvSend r addr None]) @ new"
    and P: "\<forall>r a e. EvSend r a (Some e) \<in> set new \<longrightarrow>
       fst y = Some (CouldntSendBlock e) \<and> new \<noteq> [] \<and> last new = EvSend r a (Some e)
       \<and> EvSend r a (Some e) \<notin> set (butlast new)"
    unfolding failed_send_last_def by blast
  have "snd y = evs @ ([EvRead i, EvSend r addr None] @ new)" using new by simp
  moreover have "\<forall>r' a e. EvSend r' a (Some e) \<in> set ([EvRead i, EvSend r addr None] @ new) \<longrightarrow>
       fst y = Some (CouldntSendBlock e) \<and> [EvRead i, EvSend r addr None] @ new \<noteq> []
       \<and> last ([EvRead i, EvSend r addr None] @ new) = EvSend r' a (Some e)
       \<and> EvSend r' a (Some e) \<notin> set (butlast ([EvRead i, EvSend r addr None] @ new))"
    using P by (auto simp: butlast_append)
  ultimately show ?thesis unfolding failed_send_last_def by blast
qed

lemma Stream_loop_failed_send_last:
  assumes "Stream_loop h db out addr to i block evs = Some y"
  shows "failed_send_last evs y"
proof (rule Stream_loop.raw_induct
    [where P = "\<lambda>h db out addr to i block evs y. failed_send_last evs y", OF _ assms])
  fix loop :: "'a operations \<Rightarrow> 'a \<Rightarrow> Sender \<Rightarrow> Address \<Rightarrow> bytes \<Rightarrow> int64 \<Rightarrow> SkipBlock \<Rightarrow> event list
     \<Rightarrow> (error option \<times> event list) option"
  fix h db out addr to i and block :: SkipBlock and evs y
  assume IH: "\<And>h db out addr to i block evs y.
     loop h db out addr to i block evs = Some y \<Longrightarrow> failed_send_last evs y"
  assume body: "(if hash block = to then Some (None, evs)
      else
        (case db_Read h db i of
           Inl err \<Rightarrow> Some (Some (CouldntReadBlock i err), evs @ [EvRead i])
         | Inr block' \<Rightarrow>
             (case Stream_response h block' of
                Inl err \<Rightarrow> Some (Some err, evs @ [EvRead i])
              | Inr resp \<Rightarrow>
                  (case out (send_attempts evs) resp addr of
                     Some err \<Rightarrow>
                       Some (Some (CouldntSendBlock err),
                             evs @ [EvRead i, EvSend resp addr (Some err)])
                   | None \<Rightarrow>
                       loop h db out addr to (i + 1) block'
                         (evs @ [EvRead i, EvSend resp addr None]))))) = Some y"
  show "failed_send_last evs y"
  proof (cases "hash block = to")
    case True
    with body show ?thesis by (auto simp: failed_send_last_refl)
  next
    case False
    show ?thesis
    proof (cases "db_Read h db i")
      case (Inl e)
      with False body show ?thesis by (auto simp: failed_send_last_read)
    next
      case (Inr b)
      show ?thesis
      proof (cases "Stream_response h b")
        case (Inl e)
        with False Inr body show ?thesis by (auto simp: failed_send_last_read)
      next
        case r: (Inr r)
        show ?thesis
        proof (cases "out (send_attempts evs) r addr")
          case (Some x)
          with False Inr r body show ?thesis by (auto simp: failed_send_last_fail)
        next
          case None
          with False Inr r body have
            "loop h db out addr to (i + 1) b (evs @ [EvRead i, EvSend r addr None]) = Some y"
            by simp
          from IH [OF this] show ?thesis by (rule failed_send_last_round)
        qed
      qed
    qed
  qed
qed

lemma Stream_response_ok:
  assumes "encoder_Pack h b = Inr (BlockProtoMsg bp)"
    and "0 < Index b \<longrightarrow> (\<exists>chain c. consensus_GetChain h (hash b) = Inr chain
           \<and> encoder_PackAny h chain = Inr c)"
  shows "\<exists>r. Stream_response h b = Inr r"
  using assms by (auto simp: Stream_response_def)

lemma failed_send_last_Stream:
  assumes "Stream h db out inp = Some y"
  shows "failed_send_last [] y"
proof -
  have ext: "failed_send_last [] y" if "failed_send_last [EvRecv] y"
  proof -
    from that obtain new where
      new: "snd y = [EvRecv] @ new"
      and P: "\<forall>r a e. EvSend r a (Some e) \<in> set new \<longrightarrow>
         fst y = Some (CouldntSendBlock e) \<and> new \<noteq> [] \<and> last new = EvSend r a (Some e)
         \<and> EvSend r a (Some e) \<notin> set (butlast new)"
      unfolding failed_send_last_def by blast
    have "snd y = [] @ (EvRecv # new)" using new by simp
    moreover have "\<forall>r a e. EvSend r a (Some e) \<in> set (EvRecv # new) \<longrightarrow>
         fst y = Some (CouldntSendBlock e) \<and> EvRecv # new \<noteq> []
         \<and> last (EvRecv # new) = EvSend r a (Some e)
         \<and> EvSend r a (Some e) \<notin> set (butlast (EvRecv # new))"
      using P by auto
    ultimately show ?thesis unfolding failed_send_last_def by blast
  qed
  obtain addr msg err where i: "inp Background = (addr, msg, err)"
    by (cases "inp Background") auto
  show ?thesis
  proof (cases err)
    case (Some e)
    with assms i have "y = (Some (CouldntReceive e), [EvRecv])" by (simp add: Stream_def)
    then show ?thesis by (simp add: failed_send_last_def)
  next
    case None
    show ?thesis
    proof (cases "is_BlockRequest msg")
      case False
      with assms i None have "y = (Some InvalidMessageType, [EvRecv])"
        by (cases msg) (simp_all add: Stream_def)
      then show ?thesis by (simp add: failed_send_last_def)
    next
      case True
      then obtain to where "msg = BlockRequest to" by (cases msg) simp_all
      with assms i None have "Stream_loop h db out addr to 0 zero_SkipBlock [EvRecv] = Some y"
        by (simp add: Stream_def)
      then show ?thesis by (intro ext Stream_loop_failed_send_last)
    qed
  qed
qed

subsection \<open>The example store\<close>

lemma zero_Digest_Cons: "zero_Digest = 0 # replicate 31 0"
  by (simp add: zero_Digest_def Digest_size_def eval_nat_numeral)

lemma example_store_ok: "store_ok example_store"
  by (simp add: store_ok_def example_store_def example_block_def zero_Digest_Cons upt_conv_Cons)

lemma example_store_length: "length example_store = 6"
  by (simp add: example_store_def)

lemma example_decode_0: "example_decode [0] = Inr (example_block 0)"
  by (simp add: example_decode_def)

lemma example_insert_genesis:
  "insertBlock_spec [] (example_block 0) = (None, [example_block 0])"
  by (simp add: insertBlock_spec_def store_Insert_def example_block_def empty_hash_def
      zero_Digest_Cons)

lemma example_insert_conflict:
  "insertBlock_spec example_store (example_block 3) = (Some ''ConflictError'', example_store)"
  by (simp add: insertBlock_spec_def example_store_def example_block_def)

lemma example_decode_3: "example_decode [3] = Inr (example_block 3)"
  by (simp add: example_decode_def)

lemma example_Read:
  "store_Read example_store 0 = Inr (example_block 0)"
  "store_Read example_store 1 = Inr (example_block 1)"
  "store_Read example_store 2 = Inr (example_block 2)"
  by (simp_all add: store_Read_def example_store_def)

lemma example_Stream_response:
  "Stream_response example_ops (example_block 0) = Inr (example_response 0)"
  "Stream_response example_ops (example_block 1) = Inr (example_response 1)"
  "Stream_response example_ops (example_block 2) = Inr (example_response 2)"
  by (simp_all add: Stream_response_def example_ops_def example_block_def example_response_def)

lemma example_hash_differs:
  "hash zero_SkipBlock \<noteq> hash (example_block 5)"
  "hash (example_block 0) \<noteq> hash (example_block 5)"
  "hash (example_block 1) \<noteq> hash (example_block 5)"
  "hash zero_SkipBlock \<noteq> hash (example_block 3)"
  "hash zero_SkipBlock \<noteq> hash (example_block 0)"
  by (simp_all add: example_block_def hash_zero_SkipBlock zero_Digest_Cons)

lemma example_db_Read: "db_Read example_ops = store_Read"
  by (simp add: example_ops_def)

lemma example_two_rounds:
  "Stream_loop example_ops example_store flaky_sender ''peer'' (hash (example_block 5)) 0
     zero_SkipBlock [EvRecv] =
   Stream_loop example_ops example_store flaky_sender ''peer'' (hash (example_block 5)) 2
     (example_block 1)
     [EvRecv, EvRead 0, EvSend (example_response 0) ''peer'' None,
      EvRead 1, EvSend (example_response 1) ''peer'' None]"
proof -
  have "Stream_loop example_ops example_store flaky_sender ''peer'' (hash (example_block 5)) 0
     zero_SkipBlock [EvRecv] =
    Stream_loop example_ops example_store flaky_sender ''peer'' (hash (example_block 5)) (0 + 1)
     (example_block 0) ([EvRecv] @ [EvRead 0, EvSend (example_response 0) ''peer'' None])"
    by (rule Stream_loop_step)
      (simp_all add: example_hash_differs example_db_Read example_Read example_Stream_response
        flaky_sender_def del: One_nat_def)
  also have "\<dots> =
    Stream_loop example_ops example_store flaky_sender ''peer'' (hash (example_block 5)) (1 + 1)
     (example_block 1) ([EvRecv, EvRead 0, EvSend (example_response 0) ''peer'' None]
        @ [EvRead 1, EvSend (example_response 1) ''peer'' None])"
    using Stream_loop_step [where h = example_ops and db = example_store and out = flaky_sender
        and addr = "''peer''" and to = "hash (example_block 5)" and i = 1
        and block = "example_block 0" and b = "example_block 1" and r = "example_response 1"
        and evs = "[EvRecv, EvRead 0, EvSend (example_response 0) ''peer'' None]"]
    by (simp add: example_hash_differs example_db_Read example_Read example_Stream_response
        flaky_sender_def del: One_nat_def)
  finally show ?thesis by simp
qed

subsection \<open>The request for the genesis block\<close>

text \<open>
  When the hash of the block at index 0 is asked for and is not the zero digest, the run
  is the receive, the read of index 0 and one successful send of the packed block
  without a chain.
\<close>

lemma Stream_genesis_request:
  assumes "inp Background = (addr, BlockRequest (hash g), None)"
    and "db_Read h db 0 = Inr g" and "Index g = 0" and "hash g \<noteq> zero_Digest"
    and "encoder_Pack h g = Inr (BlockProtoMsg bp)"
    and "out [] \<lparr>Block = bp, Chain = None\<rparr> addr = None"
  shows "Stream h db out inp =
         Some (None, [EvRecv, EvRead 0, EvSend \<lparr>Block = bp, Chain = None\<rparr> addr None])"
proof -
  have r: "Stream_response h g = Inr \<lparr>Block = bp, Chain = None\<rparr>"
    using assms(3,5) by (simp add: Stream_response_def)
  have "Stream_loop h db out addr (hash g) 0 zero_SkipBlock [EvRecv] =
        Stream_loop h db out addr (hash g) (0 + 1) g
          ([EvRecv] @ [EvRead 0, EvSend \<lparr>Block = bp, Chain = None\<rparr> addr None])"
    using assms(2,4,6) r by (intro Stream_loop_step) (simp_all add: hash_zero_SkipBlock)
  also have "\<dots> = Some (None, [EvRecv] @ [EvRead 0, EvSend \<lparr>Block = bp, Chain = None\<rparr> addr None])"
    by (rule Stream_loop_target_reached) simp
  finally show ?thesis using assms(1) by (simp add: Stream_def)
qed

lemma example_genesis_request:
  "Stream example_ops example_store good_sender
     (example_receiver (BlockRequest (hash (example_block 0)))) =
   Some (None, [EvRecv, EvRead 0,
     EvSend \<lparr>Block = hash (example_block 0), Chain = None\<rparr> ''peer'' None])"
  using Stream_genesis_request [where inp = "example_receiver (BlockRequest (hash (example_block 0)))"
      and addr = "''peer''" and g = "example_block 0" and h = example_ops and db = example_store
      and bp = "hash (example_block 0)" and out = good_sender]
  by (simp add: example_receiver_def example_ops_def example_Read good_sender_def
      zero_Digest_Cons) (simp add: example_block_def)

subsection \<open>The order of the effects of a round\<close>



subsection \<open>Runs on the example store\<close>




section \<open>The claims\<close>

text \<open>
  Claim C1. The database holds the six blocks \<open>bs\<close> at the indices 0 to 5; the block at
  position \<open>j\<close> has index \<open>j\<close>, the hashes are pairwise different and none is the zero
  digest. A request for the hash of block 5 then makes \<^verbatim>\<open>Stream\<close> read the indices 0 to 5
  in order and send exactly six responses, each send succeeding. Response \<open>j\<close> carries the
  packed block of index \<open>j\<close>; response 0 carries no chain; each of the responses 1 to 5
  carries the packed chain that the consensus engine gave for the hash of its block.
  \<^verbatim>\<open>Stream\<close> then returns without error. The encoder, the consensus engine and the
  sender are assumed not to fail.
\<close>

theorem C1_catch_up_six_blocks:
  assumes len: "length bs = 6" and ok: "store_ok bs"
    and rd: "\<forall>j<6. db_Read h db (of_nat j) = Inr (bs ! j)"
    and pk: "\<forall>b \<in> set bs. \<exists>bp. encoder_Pack h b = Inr (BlockProtoMsg bp)"
    and ch: "\<forall>b \<in> set bs. 0 < Index b \<longrightarrow>
               (\<exists>chain c. consensus_GetChain h (hash b) = Inr chain
                  \<and> encoder_PackAny h chain = Inr c)"
    and snd: "\<forall>hist r. out hist r addr = None"
    and rq: "inp Background = (addr, BlockRequest (hash (bs ! 5)), None)"
  shows "\<exists>evs. Stream h db out inp = Some (None, evs)
     \<and> reads evs = [0, 1, 2, 3, 4, 5]
     \<and> send_attempts evs = sent evs
     \<and> length (sent evs) = 6
     \<and> (\<forall>j<6. encoder_Pack h (bs ! j) = Inr (BlockProtoMsg (Block (sent evs ! j))))
     \<and> Chain (sent evs ! 0) = None
     \<and> (\<forall>j<6. 0 < j \<longrightarrow> (\<exists>chain c. consensus_GetChain h (hash (bs ! j)) = Inr chain
            \<and> encoder_PackAny h chain = Inr c \<and> Chain (sent evs ! j) = Some c))"
proof -
  define R where "R = (\<lambda>m. projr (Stream_response h (bs ! m)))"
  have rs: "Stream_response h (bs ! m) = Inr (R m)" if "m \<le> 5" for m
  proof -
    from that len have "bs ! m \<in> set bs" by simp
    with pk ch have "\<exists>r. Stream_response h (bs ! m) = Inr r"
      by (blast intro: Stream_response_ok)
    then show ?thesis by (auto simp: R_def)
  qed
  have rd': "db_Read h db (of_nat m) = Inr (bs ! m)" if "m \<le> 5" for m
    using that rd by simp
  define evs where "evs = EvRecv # concat (map (round_events R addr) [0..<Suc 5])"
  have run: "Stream h db out inp = Some (None, evs)"
    unfolding evs_def using len snd rq
    by (intro Stream_store_catch_up [OF ok _ rd' rs]) simp_all
  have st: "sent evs = map R [0..<6]" and at: "send_attempts evs = map R [0..<6]"
    by (simp_all add: evs_def sent_rounds send_attempts_rounds del: upt_Suc)
  have rdz: "reads evs = map of_nat [0..<6]"
    by (simp add: evs_def reads_rounds del: upt_Suc)
  have upt6: "[0..<6] = [0, 1, 2, 3, 4, 5]"
    by (simp add: upt_conv_Cons)
  have nth: "sent evs ! j = R j" if "j < 6" for j
    using that by (simp add: st del: upt_Suc)
  have props: "encoder_Pack h (bs ! j) = Inr (BlockProtoMsg (Block (R j))) \<and>
     (if 0 < Index (bs ! j)
      then \<exists>chain c. consensus_GetChain h (hash (bs ! j)) = Inr chain
             \<and> encoder_PackAny h chain = Inr c \<and> Chain (R j) = Some c
      else Chain (R j) = None)" if "j < 6" for j
    using that by (intro Stream_response_Inr rs) simp
  have idx: "Index (bs ! j) = of_nat j" if "j < 6" for j
    using that len by (intro store_ok_Index [OF ok]) simp
  have pk6: "\<forall>j<6. encoder_Pack h (bs ! j) = Inr (BlockProtoMsg (Block (sent evs ! j)))"
    using props by (simp add: nth)
  have c0: "Chain (sent evs ! 0) = None"
    using props [of 0] idx [of 0] by (simp add: nth)
  have cj: "\<forall>j<6. 0 < j \<longrightarrow> (\<exists>chain c. consensus_GetChain h (hash (bs ! j)) = Inr chain
            \<and> encoder_PackAny h chain = Inr c \<and> Chain (sent evs ! j) = Some c)"
  proof (intro allI impI)
    fix j :: nat assume j: "j < 6" "0 < j"
    then have "0 < (of_nat j :: 64 word)" by (intro of_nat64_pos) simp_all
    then show "\<exists>chain c. consensus_GetChain h (hash (bs ! j)) = Inr chain
            \<and> encoder_PackAny h chain = Inr c \<and> Chain (sent evs ! j) = Some c"
      using props [OF j(1)] idx [OF j(1)] j by (simp add: nth)
  qed
  have rd6: "reads evs = [0, 1, 2, 3, 4, 5]"
    using rdz by (simp add: upt6)
  have l6: "length (sent evs) = 6" and eq: "send_attempts evs = sent evs"
    by (simp_all add: st at)
  from run rd6 eq l6 pk6 c0 cj show ?thesis by blast
qed

theorem C1_catch_up_six_blocks_witness:
  "length example_store = 6 \<and> store_ok example_store
   \<and> (\<exists>evs. Stream example_ops example_store good_sender
          (example_receiver (BlockRequest (hash (example_store ! 5)))) = Some (None, evs)
        \<and> reads evs = [0, 1, 2, 3, 4, 5] \<and> length (sent evs) = 6
        \<and> Chain (sent evs ! 0) = None
        \<and> (\<forall>j<6. 0 < j \<longrightarrow> Chain (sent evs ! j) = Some (hash (example_store ! j))))"
proof -
  have rd: "\<forall>j<6. db_Read example_ops example_store (of_nat j) = Inr (example_store ! j)"
    by (simp add: example_db_Read store_Read_of_nat example_store_length)
  have pk: "\<forall>b \<in> set example_store. \<exists>bp. encoder_Pack example_ops b = Inr (BlockProtoMsg bp)"
    by (simp add: example_ops_def)
  have ch: "\<forall>b \<in> set example_store. 0 < Index b \<longrightarrow>
      (\<exists>chain c. consensus_GetChain example_ops (hash b) = Inr chain
         \<and> encoder_PackAny example_ops chain = Inr c)"
    by (simp add: example_ops_def)
  have snd: "\<forall>hist r. good_sender hist r ''peer'' = None"
    by (simp add: good_sender_def)
  have rq: "example_receiver (BlockRequest (hash (example_store ! 5))) Background =
      (''peer'', BlockRequest (hash (example_store ! 5)), None)"
    by (simp add: example_receiver_def)
  from C1_catch_up_six_blocks [where bs = example_store and h = example_ops
      and db = example_store and out = good_sender and addr = "''peer''"
      and inp = "example_receiver (BlockRequest (hash (example_store ! 5)))",
      OF example_store_length example_store_ok rd pk ch snd rq]
  show ?thesis
    by (simp add: example_store_length example_store_ok example_ops_def) blast
qed

text \<open>
  Claim C2, evaluated where it fails. No block of the example store has the zero digest
  as its hash, yet a request for the zero digest makes \<^verbatim>\<open>Stream\<close> return without error
  and without a single response: the guard of the loop compares the target with the
  hash of the zero block before anything is read.
\<close>

theorem C2_zero_target_clean_success:
  "zero_Digest \<notin> set (map hash example_store)
   \<and> Stream example_ops example_store good_sender (example_receiver (BlockRequest zero_Digest)) =
        Some (None, [EvRecv])"
  using example_store_ok
    Stream_zero_target [where inp = "example_receiver (BlockRequest zero_Digest)" and addr = "''peer''"]
  by (simp add: store_ok_def example_receiver_def)

text \<open>
  Claim C3, evaluated where it fails. The store holds at index 0 a genesis block whose
  hash is the zero digest, as the test double \<^verbatim>\<open>fake.Hash\<close> digests every block. Its hash
  is requested, and \<^verbatim>\<open>Stream\<close> returns without error and without a response: the guard
  of the loop compares the target with the hash of the zero block before the first read,
  so the loop never starts.
\<close>

theorem C3_zero_hash_genesis_no_response:
  "db_Read example_ops [fake_genesis] 0 = Inr fake_genesis \<and> Index fake_genesis = 0
   \<and> Stream example_ops [fake_genesis] good_sender
        (example_receiver (BlockRequest (hash fake_genesis))) = Some (None, [EvRecv])"
  using Stream_zero_target [where inp = "example_receiver (BlockRequest zero_Digest)"
      and addr = "''peer''" and h = example_ops and db = "[fake_genesis]" and out = good_sender]
  by (simp add: example_db_Read store_Read_def fake_genesis_def example_receiver_def)

text \<open>
  Claim C4. When the receive returns an error, or the message received is anything but
  a block request, \<^verbatim>\<open>Stream\<close> returns an error and its only effect is the receive: no
  block is read and no response is sent.
\<close>

theorem C4_first_message_rejected:
  "inp Background = (addr, msg, err) \<Longrightarrow> err \<noteq> None \<or> \<not> is_BlockRequest msg \<Longrightarrow>
   Stream h db out inp =
     Some (Some (case err of Some x \<Rightarrow> CouldntReceive x | None \<Rightarrow> InvalidMessageType), [EvRecv])"
  by (cases msg; cases err) (auto simp: Stream_def)

theorem C4_first_message_rejected_witness:
  "Stream example_ops example_store good_sender (example_receiver NilMessage) =
     Some (Some InvalidMessageType, [EvRecv])
   \<and> Stream example_ops example_store good_sender (\<lambda>ctx. (''peer'', BlockRequest [], Some ''EOF'')) =
     Some (Some (CouldntReceive ''EOF''), [EvRecv])"
  using C4_first_message_rejected [where inp = "example_receiver NilMessage" and addr = "''peer''"
      and msg = NilMessage and err = None and h = example_ops and db = example_store
      and out = good_sender]
    C4_first_message_rejected [where inp = "\<lambda>ctx. (''peer'', BlockRequest [], Some ''EOF'')"
      and addr = "''peer''" and msg = "BlockRequest []" and err = "Some ''EOF''"
      and h = example_ops and db = example_store and out = good_sender]
  by (simp add: example_receiver_def)

text \<open>
  Claim C5. For a genesis propagation, \<^verbatim>\<open>Process\<close> decodes the carried bytes first. When
  the decoding fails it returns the wrapped decoding error, the database is unchanged
  and nothing is inserted. When the decoding succeeds it calls the insertion with the
  decoded block and returns no payload and no error when the insertion succeeds, and
  the wrapped insertion error otherwise.
\<close>

theorem C5_propagate_genesis:
  "req_Message req = PropagateGenesis data \<Longrightarrow>
   (\<forall>err. blockFactory_decodeBlock h data = Inl err \<longrightarrow>
      Process h db req = ((None, Some (CouldntDecodeBlock err)), db, [EvDecode data]))
   \<and> (\<forall>genesis db'. blockFactory_decodeBlock h data = Inr genesis \<longrightarrow>
        (insertBlock h db genesis = (None, db') \<longrightarrow>
           Process h db req = ((None, None), db', [EvDecode data, EvInsert genesis]))
      \<and> (\<forall>err. insertBlock h db genesis = (Some err, db') \<longrightarrow>
           Process h db req =
             ((None, Some (CouldntStoreGenesis err)), db', [EvDecode data, EvInsert genesis])))"
  by (simp add: Process_def)

theorem C5_propagate_genesis_witness:
  "Process example_ops [] example_request =
     ((None, None), [example_block 0], [EvDecode [0], EvInsert (example_block 0)])
   \<and> Process example_ops example_store
       \<lparr>req_Address = ''proposer'', req_Message = PropagateGenesis [3]\<rparr> =
     ((None, Some (CouldntStoreGenesis ''ConflictError'')), example_store,
      [EvDecode [3], EvInsert (example_block 3)])
   \<and> Process example_ops [] \<lparr>req_Address = ''proposer'', req_Message = PropagateGenesis []\<rparr> =
     ((None, Some (CouldntDecodeBlock ''malformed'')), [], [EvDecode []])"
  using C5_propagate_genesis [where req = example_request and data = "[0]" and h = example_ops
      and db = "[]"]
    C5_propagate_genesis
      [where req = "\<lparr>req_Address = ''proposer'', req_Message = PropagateGenesis [3]\<rparr>"
        and data = "[3]" and h = example_ops and db = example_store]
    C5_propagate_genesis [where req = "\<lparr>req_Address = ''proposer'', req_Message = PropagateGenesis []\<rparr>"
      and data = "[]" and h = example_ops and db = "[]"]
  by (simp add: example_request_def example_ops_def example_decode_0 example_decode_3
      example_insert_genesis example_insert_conflict) (simp add: example_decode_def)

text \<open>
  Claim C6. The insertion is the one the spec describes for the genesis propagation.
  The first propagation of genesis bytes into the empty store succeeds and stores the
  decoded block. The second propagation of the same bytes succeeds as well and leaves
  the store as it was, one genesis block. More generally, on any store whose block at
  index 0 has the hash of the decoded block, the propagation succeeds and changes
  nothing.
\<close>

theorem C6_genesis_propagation_idempotent:
  assumes "insertBlock h = insertBlock_spec" and "req_Message req = PropagateGenesis data"
    and "blockFactory_decodeBlock h data = Inr g" and "Index g = 0" and "empty_hash (BackLink g)"
  shows "Process h [] req = ((None, None), [g], [EvDecode data, EvInsert g])
     \<and> Process h [g] req = ((None, None), [g], [EvDecode data, EvInsert g])
     \<and> (\<forall>b0 rest. hash b0 = hash g \<longrightarrow>
           Process h (b0 # rest) req = ((None, None), b0 # rest, [EvDecode data, EvInsert g]))"
  using assms by (simp add: Process_def insertBlock_spec_def store_Insert_def)

theorem C6_genesis_propagation_idempotent_witness:
  "Process example_ops [] example_request =
     ((None, None), [example_block 0], [EvDecode [0], EvInsert (example_block 0)])
   \<and> Process example_ops [example_block 0] example_request =
     ((None, None), [example_block 0], [EvDecode [0], EvInsert (example_block 0)])
   \<and> Process example_ops example_store example_request =
     ((None, None), example_store, [EvDecode [0], EvInsert (example_block 0)])"
proof -
  have st: "example_store = example_block 0 # map example_block [1, 2, 3, 4, 5]"
    by (simp add: example_store_def)
  have a: "insertBlock example_ops = insertBlock_spec"
    and b: "req_Message example_request = PropagateGenesis [0]"
    and c: "blockFactory_decodeBlock example_ops [0] = Inr (example_block 0)"
    by (simp_all add: example_ops_def example_request_def example_decode_0)
  have d: "Index (example_block 0) = 0" and e: "empty_hash (BackLink (example_block 0))"
    by (simp_all add: example_block_def empty_hash_def zero_Digest_Cons)
  from C6_genesis_propagation_idempotent [OF a b c d e] show ?thesis
    unfolding st by blast
qed




text \<open>
  Claim C8. In any round of the loop, whatever happened before, when the send of the
  response fails the loop returns at once with the send error wrapped: the failed send is
  the last effect, it is not tried again, and no further block is read or sent.
\<close>

theorem C8_send_failure_aborts:
  assumes "hash block \<noteq> to" and "db_Read h db i = Inr b" and "Stream_response h b = Inr r"
    and "out (send_attempts evs) r addr = Some e"
  shows "Stream_loop h db out addr to i block evs =
         Some (Some (CouldntSendBlock e), evs @ [EvRead i, EvSend r addr (Some e)])"
  using assms by (rule Stream_loop_send_fails)

theorem C8_send_failure_aborts_witness:
  "Stream example_ops example_store flaky_sender
     (example_receiver (BlockRequest (hash (example_block 5)))) =
   Some (Some (CouldntSendBlock ''broken pipe''),
     [EvRecv, EvRead 0, EvSend (example_response 0) ''peer'' None,
      EvRead 1, EvSend (example_response 1) ''peer'' None,
      EvRead 2, EvSend (example_response 2) ''peer'' (Some ''broken pipe'')])"
  using C8_send_failure_aborts [where h = example_ops and db = example_store
      and out = flaky_sender and addr = "''peer''" and to = "hash (example_block 5)" and i = 2
      and block = "example_block 1" and b = "example_block 2" and r = "example_response 2"
      and e = "''broken pipe''"
      and evs = "[EvRecv, EvRead 0, EvSend (example_response 0) ''peer'' None,
                  EvRead 1, EvSend (example_response 1) ''peer'' None]"]
  by (simp add: Stream_def example_receiver_def example_two_rounds example_hash_differs
      example_db_Read example_Read example_Stream_response flaky_sender_def del: One_nat_def)

text \<open>
  Claim C9. When the first message is a request for the zero digest, the hash of the zero
  block, \<^verbatim>\<open>Stream\<close> returns without error at once: its only effect is the receive, no
  block is read from the database and no response is sent.
\<close>

theorem C9_zero_target_returns_at_once:
  "inp Background = (addr, BlockRequest zero_Digest, None) \<Longrightarrow>
   Stream h db out inp = Some (None, [EvRecv])
   \<and> hash zero_SkipBlock = zero_Digest \<and> length zero_Digest = 32"
  by (simp add: Stream_zero_target hash_zero_SkipBlock zero_Digest_def Digest_size_def)

theorem C9_zero_target_returns_at_once_witness:
  "Stream example_ops example_store bad_sender (example_receiver (BlockRequest zero_Digest)) =
     Some (None, [EvRecv])"
  using C9_zero_target_returns_at_once [where inp = "example_receiver (BlockRequest zero_Digest)"
      and addr = "''peer''" and h = example_ops and db = example_store and out = bad_sender]
  by (simp add: example_receiver_def)

text \<open>
  Claim C10. For a request whose message is of any type other than the genesis
  propagation, \<^verbatim>\<open>Process\<close> returns no response and an error; nothing is decoded,
  nothing is inserted and the database is unchanged.
\<close>

theorem C10_other_messages_rejected:
  "\<not> is_PropagateGenesis (req_Message req) \<Longrightarrow>
   Process h db req = ((None, Some UnknownMessageType), db, [])"
  by (cases "req_Message req") (auto simp: Process_def)

theorem C10_other_messages_rejected_witness:
  "Process example_ops example_store
     \<lparr>req_Address = ''peer'', req_Message = BlockRequest zero_Digest\<rparr> =
     ((None, Some UnknownMessageType), example_store, [])"
  using C10_other_messages_rejected
      [where req = "\<lparr>req_Address = ''peer'', req_Message = BlockRequest zero_Digest\<rparr>"
        and h = example_ops and db = example_store]
  by simp

end
